theory Spec2Isabelle
  imports
    Complex_Main
    "HOL-Library.Signed_Division"
    "HOL-Library.Multiset"
    "HOL-Library.Product_Lexorder"
begin

section \<open>Numbers and strings of the host language\<close>

text \<open>
  \<^verbatim>\<open>server.js\<close> computes with JavaScript numbers.  They are modelled as exact reals
  together with the one non-numeric value the handlers can produce, \<open>NaN\<close>.  On
  integers below \<open>2^53\<close> and on the comparisons of the phase dispatch the exact
  arithmetic and the double arithmetic agree.  The rounding of doubles is outside the
  model, so a statement about all numbers is made only where it is compositional (the
  code's own operations on both sides), and a statement about values is made below
  \<open>2^53\<close> or at numbers on which every operation involved is exact.
\<close>

datatype jsnum = NaN | Fin real

fun js_add :: "jsnum \<Rightarrow> jsnum \<Rightarrow> jsnum" where
  "js_add (Fin a) (Fin b) = Fin (a + b)"
| "js_add _ _ = NaN"

definition is_digit :: "char \<Rightarrow> bool" where
  "is_digit c = (c \<in> set ''0123456789'')"

text \<open>The value of a decimal digit is its position in the row of digits, and back.\<close>

definition digit_val :: "char \<Rightarrow> nat" where
  "digit_val c = length (takeWhile (\<lambda>d. d \<noteq> c) ''0123456789'')"

definition digit_char :: "nat \<Rightarrow> char" where
  "digit_char d = ''0123456789'' ! d"

text \<open>\<^verbatim>\<open>parseInt\<close> on a string of decimal digits (the only strings the regular
  expression hands to it).\<close>

definition parseInt :: "string \<Rightarrow> nat" where
  "parseInt s = foldl (\<lambda>a c. 10 * a + digit_val c) 0 s"

text \<open>\<^verbatim>\<open>parseFloat\<close> on the third capture group, which has the shape
  \<^verbatim>\<open>\d+\.?\d*\<close>: digits, then possibly a point and more digits.\<close>

definition parseFloat :: "string \<Rightarrow> real" where
  "parseFloat s =
     (let ip = takeWhile is_digit s; rest = dropWhile is_digit s
      in real (parseInt ip) +
         (case rest of
            c # f \<Rightarrow>
              if c = CHR ''.''
              then real (parseInt (takeWhile is_digit f)) / 10 ^ length (takeWhile is_digit f)
              else 0
          | [] \<Rightarrow> 0))"

text \<open>
  \<^verbatim>\<open>Number.prototype.toString\<close> on an integer, and \<^verbatim>\<open>padStart(2, '0')\<close>.  Below
  \<open>10^21\<close> the text is the row of all digits.  From \<open>10^21\<close> on it is the exponent
  notation: the significant digits with a point after the first one when there are
  more, then \<^verbatim>\<open>e+\<close> and the decimal exponent, as in \<^verbatim>\<open>1e+21\<close> and
  \<^verbatim>\<open>1.31072e+21\<close>.  The significant digits here are those of the exact integer; the
  host prints the shortest row that reads back as the same double, which is the same row
  when the integer is a double with at most 15 significant digits.
\<close>

fun digits :: "nat \<Rightarrow> string" where
  "digits n = (if n < 10 then [digit_char n] else digits (n div 10) @ [digit_char (n mod 10)])"

declare digits.simps [simp del]

definition significant :: "string \<Rightarrow> string" where
  "significant ds = rev (dropWhile (\<lambda>c. c = CHR ''0'') (rev ds))"

definition exponential :: "nat \<Rightarrow> string" where
  "exponential n =
     (case significant (digits n) of
        [] \<Rightarrow> []
      | d # ds \<Rightarrow>
          d # (if ds = [] then [] else CHR ''.'' # ds) @ ''e+'' @ digits (length (digits n) - 1))"

definition magnitude :: "nat \<Rightarrow> string" where
  "magnitude n = (if n < 10 ^ 21 then digits n else exponential n)"

definition toString :: "int \<Rightarrow> string" where
  "toString i = (if i < 0 then CHR ''-'' # magnitude (nat (- i)) else magnitude (nat i))"

definition padStart :: "nat \<Rightarrow> char \<Rightarrow> string \<Rightarrow> string" where
  "padStart n c s = replicate (n - length s) c @ s"

section \<open>Duration codec\<close>

text \<open>
  The regular expression \<^verbatim>\<open>/(\d+):(\d+):(\d+\.?\d*)/\<close> of \<^verbatim>\<open>intervalToMs\<close>.
  \<open>match_at\<close> is an attempt to match at the head of the string.  Each \<^verbatim>\<open>\d+\<close> that
  is followed by a colon has to take the whole run of digits (a shorter run is followed
  by a digit, never by the colon), and the last group cannot fail once it has one digit,
  so the greedy choice is the only one and no backtracking is involved: \<open>digit_run\<close>
  is \<^verbatim>\<open>\d+\<close>, \<open>colon\<close> the literal colon and \<open>fraction\<close> the tail \<^verbatim>\<open>\.?\d*\<close> of
  the third group.  \<open>regex_search\<close>
  is \<^verbatim>\<open>String.prototype.match\<close> without the global flag: the leftmost position at
  which an attempt succeeds.  The result holds the three capture groups.
\<close>

definition digit_run :: "string \<Rightarrow> (string \<times> string) option" where
  "digit_run s =
     (if takeWhile is_digit s = [] then None
      else Some (takeWhile is_digit s, dropWhile is_digit s))"

fun colon :: "string \<Rightarrow> string option" where
  "colon [] = None"
| "colon (c # cs) = (if c = CHR '':'' then Some cs else None)"

fun fraction :: "string \<Rightarrow> string" where
  "fraction [] = []"
| "fraction (c # cs) = (if c = CHR ''.'' then c # takeWhile is_digit cs else [])"

definition match_at :: "string \<Rightarrow> (string \<times> string \<times> string) option" where
  "match_at s =
     (case digit_run s of
        None \<Rightarrow> None
      | Some (g1, r1) \<Rightarrow>
          (case colon r1 of
             None \<Rightarrow> None
           | Some s2 \<Rightarrow>
               (case digit_run s2 of
                  None \<Rightarrow> None
                | Some (g2, r2) \<Rightarrow>
                    (case colon r2 of
                       None \<Rightarrow> None
                     | Some s3 \<Rightarrow>
                         (case digit_run s3 of
                            None \<Rightarrow> None
                          | Some (g3, r3) \<Rightarrow> Some (g1, g2, g3 @ fraction r3))))))"

fun regex_search :: "string \<Rightarrow> (string \<times> string \<times> string) option" where
  "regex_search [] = None"
| "regex_search (c # cs) =
     (case match_at (c # cs) of Some m \<Rightarrow> Some m | None \<Rightarrow> regex_search cs)"

text \<open>\<^verbatim>\<open>intervalToMs\<close> (the spec's \<open>parseDuration\<close>), lines 21 to 33.  The empty
  string is the falsy interval of the first line.\<close>

definition intervalToMs :: "string \<Rightarrow> real" where
  "intervalToMs interval =
     (if interval = [] then 0
      else case regex_search interval of
        Some (g1, g2, g3) \<Rightarrow>
          (let hours = parseInt g1; minutes = parseInt g2; seconds = parseFloat g3
           in (real hours * 3600 + real minutes * 60 + seconds) * 1000)
      | None \<Rightarrow> 0)"

text \<open>
  The formatting of a millisecond count as \<^verbatim>\<open>HH:MM:SS\<close> (the spec's
  \<open>formatDuration\<close>).  The handler has the same five lines twice, at 160 to 164 for
  the attempt and at 178 to 182 for the new cumulated total, differing only in the
  names of the variables.  \<^verbatim>\<open>%\<close> is the remainder with the sign of the dividend,
  \<open>smod\<close> here.  Every operation on \<open>NaN\<close> gives \<open>NaN\<close>, which prints as \<^verbatim>\<open>NaN\<close>.
\<close>

definition formatDuration :: "jsnum \<Rightarrow> string" where
  "formatDuration totalTimeMs =
     (case totalTimeMs of
        NaN \<Rightarrow> ''NaN:NaN:NaN''
      | Fin ms \<Rightarrow>
          (let totalSeconds = \<lfloor>ms / 1000\<rfloor>;
               hours = \<lfloor>real_of_int totalSeconds / 3600\<rfloor>;
               minutes = \<lfloor>real_of_int (totalSeconds smod 3600) / 60\<rfloor>;
               seconds = totalSeconds smod 60
           in padStart 2 CHR ''0'' (toString hours) @ '':'' @
              padStart 2 CHR ''0'' (toString minutes) @ '':'' @
              padStart 2 CHR ''0'' (toString seconds)))"

text \<open>
  The inputs the comment of \<^verbatim>\<open>intervalToMs\<close> names besides the plain time,
  \<^verbatim>\<open>"1 day 00:05:30"\<close>: a number of days, the unit in the singular or the plural,
  and a blank before the time.
\<close>

definition days_prefix :: "nat \<Rightarrow> bool \<Rightarrow> string" where
  "days_prefix n plural = digits n @ (if plural then '' days '' else '' day '')"

section \<open>Phase selector\<close>

text \<open>\<^verbatim>\<open>getCurrentUTCHour\<close>, lines 15 to 18, as a function of the clock's UTC hours
  and minutes.\<close>

definition getCurrentUTCHour :: "nat \<Rightarrow> nat \<Rightarrow> real" where
  "getCurrentUTCHour hours minutes = real hours + real minutes / 60"

datatype phase = Learning | Quiz | Ranking

text \<open>The conditions of the \<^verbatim>\<open>if\<close> chain of the read handler, lines 46, 66 and 80.\<close>

definition currentPhase :: "real \<Rightarrow> phase" where
  "currentPhase currentHour =
     (if currentHour \<ge> 0 \<and> currentHour < 20 then Learning
      else if currentHour \<ge> 20 \<and> currentHour < 20.5 then Quiz
      else Ranking)"

section \<open>Rows, requests and responses\<close>

text \<open>A row of the \<^verbatim>\<open>users\<close> table and a row of the \<^verbatim>\<open>questions\<close> table, with
  the column names the handlers use.  The handlers never look inside a row of the
  \<^verbatim>\<open>words\<close> table.\<close>

record user =
  email :: string
  number_of_correct_ans :: nat
  time :: string
  rank :: nat

record question =
  word :: string
  correct :: string

type_synonym word_row = "string \<times> string"

text \<open>
  The body of a submission, \<^verbatim>\<open>{ email, answers, time }\<close>, with the types of the
  interface: a field is absent (\<open>None\<close>, which also stands for \<^verbatim>\<open>null\<close>) or holds a
  string, an object of strings, an object of numbers.  An object is the list of its own
  properties in enumeration order, each key once.
\<close>

record body =
  body_email :: "string option"
  body_answers :: "(string \<times> string) list option"
  body_time :: "(string \<times> real) list option"

datatype response =
    Words "word_row list"
  | Questions "question list"
  | Rankings "user option" "user list"
  | Submitted nat nat string
  | Bad_request string
  | Server_error string

section \<open>Scoring loop\<close>

text \<open>
  The read \<^verbatim>\<open>time[word]\<close> of line 154 is a property read on an object made by the
  JSON parser: an own property wins, and a name that the object does not have is looked
  up in \<^verbatim>\<open>Object.prototype\<close>, whose members are functions (and, for
  \<^verbatim>\<open>__proto__\<close>, the prototype object itself).  Such a value is truthy and
  \<^verbatim>\<open>parseFloat\<close> of it is \<open>NaN\<close>; a number is truthy unless it is zero, and
  \<^verbatim>\<open>parseFloat\<close> of a number is the number.
\<close>

datatype jsval = Undefined | Number real | Inherited

definition object_prototype_names :: "string list" where
  "object_prototype_names =
     [''constructor'', ''hasOwnProperty'', ''isPrototypeOf'', ''propertyIsEnumerable'',
      ''toLocaleString'', ''toString'', ''valueOf'', ''__proto__'',
      ''__defineGetter__'', ''__defineSetter__'', ''__lookupGetter__'', ''__lookupSetter__'']"

definition get_property :: "(string \<times> real) list \<Rightarrow> string \<Rightarrow> jsval" where
  "get_property obj key =
     (case map_of obj key of
        Some v \<Rightarrow> Number v
      | None \<Rightarrow> if key \<in> set object_prototype_names then Inherited else Undefined)"

fun truthy :: "jsval \<Rightarrow> bool" where
  "truthy Undefined = False"
| "truthy (Number x) = (x \<noteq> 0)"
| "truthy Inherited = True"

fun parseFloat_of :: "jsval \<Rightarrow> jsnum" where
  "parseFloat_of (Number x) = Fin x"
| "parseFloat_of _ = NaN"

text \<open>The loop of lines 146 to 157 over \<^verbatim>\<open>Object.entries(answers)\<close>; the accumulator
  is the pair of \<^verbatim>\<open>correctCount\<close> and \<^verbatim>\<open>totalTimeMs\<close>.\<close>

fun score_loop ::
  "question list \<Rightarrow> (string \<times> real) list \<Rightarrow> (string \<times> string) list \<Rightarrow> nat \<times> jsnum \<Rightarrow> nat \<times> jsnum"
where
  "score_loop qs tm [] acc = acc"
| "score_loop qs tm ((w, answer) # entries) (correctCount, totalTimeMs) =
     score_loop qs tm entries
       (case find (\<lambda>q. word q = w) qs of
          Some q \<Rightarrow> if correct q = answer then correctCount + 1 else correctCount
        | None \<Rightarrow> correctCount,
        if truthy (get_property tm w)
        then js_add totalTimeMs (parseFloat_of (get_property tm w))
        else totalTimeMs)"

text \<open>What the time mapping holds for a word, in the words of the spec: the number of
  the entry when there is one, and zero otherwise.\<close>

definition entry_ms :: "(string \<times> real) list \<Rightarrow> string \<Rightarrow> real" where
  "entry_ms tm w = (case map_of tm w of Some v \<Rightarrow> v | None \<Rightarrow> 0)"

section \<open>Record store\<close>

text \<open>
  The tables live in an external store, reached through a client library that is not
  part of the repository.  The store is a state that the handlers read and write; every
  call to it is logged, and a call can fail in two ways: the awaited result carries an
  \<^verbatim>\<open>error\<close> (and no data), which is how the handlers read failures, or the awaited
  promise is rejected, which raises at the \<^verbatim>\<open>await\<close>.  Which calls fail is an input:
  \<open>f i\<close> is the failure of the \<open>i\<close>-th call of the request, if any.  A failed write
  changes nothing.
\<close>

record store =
  users :: "user list"
  words :: "word_row list"
  questions :: "question list"

datatype fault = Returned string | Rejected string

type_synonym faults = "nat \<Rightarrow> fault option"

datatype call =
    Select_words
  | Select_questions
  | Select_users_ordered
  | Select_user_eq string
  | Update_rank_neq string nat
  | Update_rank_eq string nat
  | Update_user_eq string nat string
  | Insert_user user

text \<open>Modelled from the spec: update-by-filter on the users table, which is outside
  the repository.  The rows that pass the filter are changed, the others and their order
  are kept.\<close>

definition update_where :: "(user \<Rightarrow> bool) \<Rightarrow> (user \<Rightarrow> user) \<Rightarrow> store \<Rightarrow> store" where
  "update_where flt upd s = s\<lparr>users := map (\<lambda>u. if flt u then upd u else u) (users s)\<rparr>"

text \<open>Modelled from the spec: insert on the users table, which is outside the
  repository.\<close>

definition insert_row :: "user \<Rightarrow> store \<Rightarrow> store" where
  "insert_row u s = s\<lparr>users := users s @ [u]\<rparr>"

text \<open>Modelled from the spec: select-one-by-equality, which is outside the repository.
  With \<^verbatim>\<open>.single()\<close> the data is the row when exactly one row has the email, and
  null otherwise.\<close>

definition select_single :: "string \<Rightarrow> store \<Rightarrow> user option" where
  "select_single em s =
     (case filter (\<lambda>u. email u = em) (users s) of [u] \<Rightarrow> Some u | _ \<Rightarrow> None)"

text \<open>Modelled from the spec: the select of all users with the two \<^verbatim>\<open>.order\<close>
  clauses of lines 85 and 86, which the store executes.  The rows come back sorted by
  \<^verbatim>\<open>number_of_correct_ans\<close> descending and then by \<^verbatim>\<open>time\<close> ascending, rows with
  equal keys in their stored order.  How the store compares two stored intervals is its
  own business: \<open>dur\<close> is the length it reads from the text of an interval.\<close>

definition select_users_ordered :: "(string \<Rightarrow> real) \<Rightarrow> store \<Rightarrow> user list" where
  "select_users_ordered dur s =
     sort_key (\<lambda>u. (- int (number_of_correct_ans u), dur (time u))) (users s)"

text \<open>The order of the leaderboard in the words of the spec: more correct answers
  first, and among equal counts the shorter time first.\<close>

definition ranks_before :: "(string \<Rightarrow> real) \<Rightarrow> user \<Rightarrow> user \<Rightarrow> bool" where
  "ranks_before dur u v =
     (number_of_correct_ans u > number_of_correct_ans v \<or>
      (number_of_correct_ans u = number_of_correct_ans v \<and> dur (time u) \<le> dur (time v)))"

section \<open>Read handler\<close>

text \<open>The loop of lines 97 to 102.  The result of the awaited update is dropped, so a
  returned error goes unnoticed; a rejected promise leaves the loop and the handler
  through the \<^verbatim>\<open>catch\<close> block.  The first component is the message of that
  exception, if there was one.\<close>

fun update_ranks ::
  "faults \<Rightarrow> user list \<Rightarrow> store \<times> call list \<Rightarrow> string option \<times> store \<times> call list"
where
  "update_ranks f [] (s, calls) = (None, s, calls)"
| "update_ranks f (u # rankedUsers) (s, calls) =
     (case f (length calls) of
        Some (Rejected e) \<Rightarrow> (Some e, s, calls @ [Update_rank_eq (email u) (rank u)])
      | Some (Returned e) \<Rightarrow>
          update_ranks f rankedUsers (s, calls @ [Update_rank_eq (email u) (rank u)])
      | None \<Rightarrow>
          update_ranks f rankedUsers
            (update_where (\<lambda>v. email v = email u) (\<lambda>v. v\<lparr>rank := rank u\<rparr>) s,
             calls @ [Update_rank_eq (email u) (rank u)]))"

text \<open>Line 91: \<^verbatim>\<open>users.map((user, index) => ({ ...user, rank: index + 1 }))\<close>.\<close>

definition assign_ranks :: "user list \<Rightarrow> user list" where
  "assign_ranks us = map (\<lambda>(index, u). u\<lparr>rank := index + 1\<rparr>) (enumerate 0 us)"

text \<open>
  The handler of \<^verbatim>\<open>GET /api/data/:email\<close>, lines 36 to 121, as a function of the
  store, the reading of the clock and the email of the path.  It gives the response, the
  store after the request and the calls made.  The constant \<^verbatim>\<open>message\<close> texts of
  the responses are left out.  In the Learning branch the result of the awaited reset of
  line 48 is dropped like that of the rank updates; \<open>send_words\<close> is the rest of the
  branch, lines 54 to 64.
\<close>

definition send_words :: "faults \<Rightarrow> store \<Rightarrow> response \<times> store \<times> call list" where
  "send_words f s =
     (case f 1 of
        Some (Returned e) \<Rightarrow> (Server_error e, s, [Update_rank_neq [] 0, Select_words])
      | Some (Rejected e) \<Rightarrow> (Server_error e, s, [Update_rank_neq [] 0, Select_words])
      | None \<Rightarrow> (Words (words s), s, [Update_rank_neq [] 0, Select_words]))"

definition learning :: "faults \<Rightarrow> store \<Rightarrow> response \<times> store \<times> call list" where
  "learning f s =
     (case f 0 of
        Some (Rejected e) \<Rightarrow> (Server_error e, s, [Update_rank_neq [] 0])
      | Some (Returned e) \<Rightarrow> send_words f s
      | None \<Rightarrow> send_words f (update_where (\<lambda>u. email u \<noteq> []) (\<lambda>u. u\<lparr>rank := 0\<rparr>) s))"

definition quiz :: "faults \<Rightarrow> store \<Rightarrow> response \<times> store \<times> call list" where
  "quiz f s =
     (case f 0 of
        Some (Returned e) \<Rightarrow> (Server_error e, s, [Select_questions])
      | Some (Rejected e) \<Rightarrow> (Server_error e, s, [Select_questions])
      | None \<Rightarrow> (Questions (questions s), s, [Select_questions]))"

definition rankings ::
  "(string \<Rightarrow> real) \<Rightarrow> faults \<Rightarrow> store \<Rightarrow> string \<Rightarrow> response \<times> store \<times> call list"
where
  "rankings dur f s em =
     (case f 0 of
        Some (Returned e) \<Rightarrow> (Server_error e, s, [Select_users_ordered])
      | Some (Rejected e) \<Rightarrow> (Server_error e, s, [Select_users_ordered])
      | None \<Rightarrow>
          (let rankedUsers = assign_ranks (select_users_ordered dur s)
           in case update_ranks f rankedUsers (s, [Select_users_ordered]) of
                (Some e, s', calls) \<Rightarrow> (Server_error e, s', calls)
              | (None, s', calls) \<Rightarrow>
                  (Rankings (find (\<lambda>u. email u = em) rankedUsers) rankedUsers, s', calls)))"

definition get_data ::
  "(string \<Rightarrow> real) \<Rightarrow> faults \<Rightarrow> store \<Rightarrow> real \<Rightarrow> string \<Rightarrow> response \<times> store \<times> call list"
where
  "get_data dur f s currentHour em =
     (case currentPhase currentHour of
        Learning \<Rightarrow> learning f s
      | Quiz \<Rightarrow> quiz f s
      | Ranking \<Rightarrow> rankings dur f s em)"

section \<open>Submission handler\<close>

text \<open>
  The branch of lines 166 to 207 on what the lookup of the user gave, with the write it
  makes as call number 2 of the request.  A write that fails in either way ends in the
  \<^verbatim>\<open>catch\<close> block.
\<close>

definition write_user :: "faults \<Rightarrow> call \<Rightarrow> (store \<Rightarrow> store) \<Rightarrow> response \<Rightarrow> store \<Rightarrow> call list
    \<Rightarrow> response \<times> store \<times> call list" where
  "write_user f c w ok s calls =
     (case f (length calls) of
        Some (Returned e) \<Rightarrow> (Server_error e, s, calls @ [c])
      | Some (Rejected e) \<Rightarrow> (Server_error e, s, calls @ [c])
      | None \<Rightarrow> (ok, w s, calls @ [c]))"

definition upsert ::
  "faults \<Rightarrow> user option \<Rightarrow> string \<Rightarrow> nat \<Rightarrow> jsnum \<Rightarrow> response \<Rightarrow> store \<Rightarrow> call list
    \<Rightarrow> response \<times> store \<times> call list"
where
  "upsert f existingUser em correctCount totalTimeMs ok s calls =
     (case existingUser of
        Some existing \<Rightarrow>
          (let existingTimeMs = intervalToMs (time existing);
               newTotalTimeMs = js_add (Fin existingTimeMs) totalTimeMs;
               newIntervalString = formatDuration newTotalTimeMs;
               total = number_of_correct_ans existing + correctCount
           in write_user f (Update_user_eq em total newIntervalString)
                (update_where (\<lambda>u. email u = em)
                   (\<lambda>u. u\<lparr>number_of_correct_ans := total, time := newIntervalString\<rparr>))
                ok s calls)
      | None \<Rightarrow>
          (let row = \<lparr>email = em, number_of_correct_ans = correctCount,
                      time = formatDuration totalTimeMs, rank = 0\<rparr>
           in write_user f (Insert_user row) (insert_row row) ok s calls))"

text \<open>
  The handler of \<^verbatim>\<open>POST /api/submit\<close>, lines 124 to 221.  The test of line 129 is
  on truthiness: an absent field and the empty string are falsy, an object is truthy
  whatever it holds.  The result of the lookup of line 167 is read for its data only, so
  a lookup that returns an error is a lookup that found nobody.
\<close>

definition submit :: "faults \<Rightarrow> store \<Rightarrow> body \<Rightarrow> response \<times> store \<times> call list" where
  "submit f s b =
     (case (body_email b, body_answers b, body_time b) of
        (Some em, Some answers, Some tm) \<Rightarrow>
          if em = [] then (Bad_request ''Missing required fields: email, answers, time'', s, [])
          else
            (case f 0 of
               Some (Returned e) \<Rightarrow> (Server_error e, s, [Select_questions])
             | Some (Rejected e) \<Rightarrow> (Server_error e, s, [Select_questions])
             | None \<Rightarrow>
                 (case score_loop (questions s) tm answers (0, Fin 0) of
                    (correctCount, totalTimeMs) \<Rightarrow>
                      (let intervalString = formatDuration totalTimeMs;
                           ok = Submitted correctCount (length answers) intervalString;
                           calls = [Select_questions, Select_user_eq em]
                       in case f 1 of
                            Some (Rejected e) \<Rightarrow> (Server_error e, s, calls)
                          | Some (Returned e) \<Rightarrow> upsert f None em correctCount totalTimeMs ok s calls
                          | None \<Rightarrow>
                              upsert f (select_single em s) em correctCount totalTimeMs ok s calls)))
      | _ \<Rightarrow> (Bad_request ''Missing required fields: email, answers, time'', s, []))"

definition no_faults :: faults where
  "no_faults = (\<lambda>i. None)"

section \<open>Properties of the duration codec\<close>

lemma digits_small: "n < 10 \<Longrightarrow> digits n = [digit_char n]"
  by (simp add: digits.simps)

lemma digits_large: "10 \<le> n \<Longrightarrow> digits n = digits (n div 10) @ [digit_char (n mod 10)]"
  by (subst digits.simps) simp

lemma digit_char_cases:
  assumes "d < (10::nat)"
  shows "d = 0 \<or> d = 1 \<or> d = 2 \<or> d = 3 \<or> d = 4 \<or> d = 5 \<or> d = 6 \<or> d = 7 \<or> d = 8 \<or> d = 9"
  using assms by arith

lemma is_digit_digit_char: "d < 10 \<Longrightarrow> is_digit (digit_char d)"
  using digit_char_cases [of d] by (auto simp: is_digit_def digit_char_def)

lemma digit_val_digit_char: "d < 10 \<Longrightarrow> digit_val (digit_char d) = d"
  using digit_char_cases [of d] by (auto simp: digit_char_def digit_val_def)

lemma not_digit_colon [simp]: "\<not> is_digit CHR '':''"
  by (simp add: is_digit_def)

lemma is_digit_zero [simp]: "is_digit CHR ''0''"
  by (simp add: is_digit_def)

lemma digits_all_digit: "c \<in> set (digits n) \<Longrightarrow> is_digit c"
proof (induction n arbitrary: c rule: digits.induct)
  case (1 n)
  show ?case
  proof (cases "n < 10")
    case True
    with "1.prems" show ?thesis by (simp add: digits_small is_digit_digit_char)
  next
    case False
    with "1.prems" "1.IH" show ?thesis
      by (auto simp: digits_large is_digit_digit_char)
  qed
qed

lemma digits_not_Nil: "digits n \<noteq> []"
  by (subst digits.simps) simp

lemma parseInt_snoc: "parseInt (s @ [c]) = 10 * parseInt s + digit_val c"
  by (simp add: parseInt_def)

lemma parseInt_digits: "parseInt (digits n) = n"
proof (induction n rule: digits.induct)
  case (1 n)
  show ?case
  proof (cases "n < 10")
    case True
    then show ?thesis by (simp add: digits_small parseInt_def digit_val_digit_char)
  next
    case False
    with "1.IH" show ?thesis
      by (simp add: digits_large parseInt_snoc digit_val_digit_char)
  qed
qed

lemma parseInt_zeros: "parseInt (replicate k CHR ''0'' @ s) = parseInt s"
proof -
  have "foldl (\<lambda>a c. 10 * a + digit_val c) 0 (replicate k CHR ''0'') = 0"
    by (induction k) (simp_all add: digit_val_def)
  then show ?thesis by (simp add: parseInt_def)
qed

lemma takeWhile_digits_stop:
  assumes "\<forall>c \<in> set ds. is_digit c" and "r = [] \<or> \<not> is_digit (hd r)"
  shows "takeWhile is_digit (ds @ r) = ds" and "dropWhile is_digit (ds @ r) = r"
proof -
  from assms(2) have t: "takeWhile is_digit r = []" and d: "dropWhile is_digit r = r"
    by (cases r; auto)+
  from assms(1) show "takeWhile is_digit (ds @ r) = ds"
    by (simp add: takeWhile_append2 t)
  from assms(1) show "dropWhile is_digit (ds @ r) = r"
    by (simp add: dropWhile_append2 d)
qed

lemma digit_run_stop:
  assumes "\<forall>c \<in> set ds. is_digit c" and "ds \<noteq> []" and "r = [] \<or> \<not> is_digit (hd r)"
  shows "digit_run (ds @ r) = Some (ds, r)"
  using takeWhile_digits_stop [OF assms(1,3)] assms(2) by (simp add: digit_run_def)

lemma match_at_time:
  assumes h: "\<forall>c \<in> set hh. is_digit c" "hh \<noteq> []"
    and m: "\<forall>c \<in> set mm. is_digit c" "mm \<noteq> []"
    and s: "\<forall>c \<in> set ss. is_digit c" "ss \<noteq> []"
    and r: "r = [] \<or> \<not> is_digit (hd r)"
  shows "match_at (hh @ CHR '':'' # mm @ CHR '':'' # ss @ r) = Some (hh, mm, ss @ fraction r)"
proof -
  have 1: "digit_run (hh @ CHR '':'' # mm @ CHR '':'' # ss @ r) = Some (hh, CHR '':'' # mm @ CHR '':'' # ss @ r)"
    by (rule digit_run_stop [OF h]) simp
  have 2: "digit_run (mm @ CHR '':'' # ss @ r) = Some (mm, CHR '':'' # ss @ r)"
    by (rule digit_run_stop [OF m]) simp
  have 3: "digit_run (ss @ r) = Some (ss, r)"
    by (rule digit_run_stop [OF s r])
  show ?thesis
    by (simp add: match_at_def 1 2 3)
qed

lemma regex_search_here: "match_at s = Some m \<Longrightarrow> regex_search s = Some m"
  by (cases s) (simp_all add: match_at_def digit_run_def)

lemma pad_digits:
  shows pad_all_digit: "\<forall>c \<in> set (padStart 2 CHR ''0'' (digits n)). is_digit c"
    and pad_not_Nil: "padStart 2 CHR ''0'' (digits n) \<noteq> []"
    and parseInt_pad: "parseInt (padStart 2 CHR ''0'' (digits n)) = n"
  by (auto simp: padStart_def digits_all_digit digits_not_Nil parseInt_zeros parseInt_digits)

lemma magnitude_small: "n < 10 ^ 21 \<Longrightarrow> magnitude n = digits n"
  by (simp add: magnitude_def)

lemma toString_nat: "n < 10 ^ 21 \<Longrightarrow> toString (int n) = digits n"
  by (simp add: toString_def magnitude_small)

lemma smod_nonneg: "0 \<le> k \<Longrightarrow> 0 < l \<Longrightarrow> k smod l = k mod (l::int)"
  by (simp add: signed_modulo_int_def sgn_if)

lemma formatDuration_nonneg:
  assumes "0 \<le> ms" and "nat \<lfloor>ms / 1000\<rfloor> div 3600 < 10 ^ 21"
  defines "t \<equiv> nat \<lfloor>ms / 1000\<rfloor>"
  shows "formatDuration (Fin ms) =
    padStart 2 CHR ''0'' (digits (t div 3600)) @ CHR '':'' #
    padStart 2 CHR ''0'' (digits (t mod 3600 div 60)) @ CHR '':'' #
    padStart 2 CHR ''0'' (digits (t mod 60)) @ []"
proof -
  have ts: "\<lfloor>ms / 1000\<rfloor> = int t"
    using assms by (simp add: t_def)
  have hours: "\<lfloor>real t / 3600\<rfloor> = int (t div 3600)"
    using floor_divide_of_nat_eq [of t 3600, where ?'a = real] by simp
  have m1: "int t smod 3600 = int (t mod 3600)"
    by (simp add: smod_nonneg zmod_int)
  have minutes: "\<lfloor>real (t mod 3600) / 60\<rfloor> = int (t mod 3600 div 60)"
    using floor_divide_of_nat_eq [of "t mod 3600" 60, where ?'a = real] by simp
  have seconds: "int t smod 60 = int (t mod 60)"
    by (simp add: smod_nonneg zmod_int)
  have small: "t div 3600 < 10 ^ 21" "t mod 3600 div 60 < 10 ^ 21" "t mod 60 < 10 ^ 21"
  proof -
    show "t div 3600 < 10 ^ 21"
      using assms(2) by (simp add: t_def)
    have "t mod 3600 div 60 < 60"
      by (simp add: less_mult_imp_div_less)
    then show "t mod 3600 div 60 < 10 ^ 21"
      by simp
    have "t mod 60 < 60"
      by simp
    then show "t mod 60 < 10 ^ 21"
      by simp
  qed
  show ?thesis
    by (simp add: formatDuration_def Let_def ts hours m1 minutes seconds
        toString_nat [OF small(1)] toString_nat [OF small(2)] toString_nat [OF small(3)]
        del: of_nat_div of_nat_mod)
qed

lemma hms_sum: "(t div 3600) * 3600 + (t mod 3600 div 60) * 60 + t mod 60 = (t::nat)"
proof -
  have "t mod 3600 div 60 * 60 + t mod 3600 mod 60 = t mod 3600"
    by simp
  moreover have "t mod 3600 mod 60 = t mod 60"
    by (simp add: mod_mod_cancel)
  ultimately show ?thesis
    by (metis add.assoc div_mult_mod_eq)
qed

lemma parseFloat_digits:
  assumes "\<forall>c \<in> set ds. is_digit c"
  shows "parseFloat ds = real (parseInt ds)"
proof -
  from assms have a: "takeWhile is_digit ds = ds" and b: "dropWhile is_digit ds = []"
    by simp_all
  show ?thesis unfolding parseFloat_def Let_def a b by simp
qed

lemma intervalToMs_formatDuration:
  assumes "0 \<le> ms" and "nat \<lfloor>ms / 1000\<rfloor> div 3600 < 10 ^ 21"
  shows "intervalToMs (formatDuration (Fin ms)) = real_of_int (\<lfloor>ms / 1000\<rfloor> * 1000)"
proof -
  define t where "t = nat \<lfloor>ms / 1000\<rfloor>"
  define hh where "hh = padStart 2 CHR ''0'' (digits (t div 3600))"
  define mm where "mm = padStart 2 CHR ''0'' (digits (t mod 3600 div 60))"
  define ss where "ss = padStart 2 CHR ''0'' (digits (t mod 60))"
  have f: "formatDuration (Fin ms) = hh @ CHR '':'' # mm @ CHR '':'' # ss @ []"
    unfolding hh_def mm_def ss_def t_def by (rule formatDuration_nonneg [OF assms])
  have m: "match_at (hh @ CHR '':'' # mm @ CHR '':'' # ss @ []) = Some (hh, mm, ss @ fraction [])"
    unfolding hh_def mm_def ss_def
    by (rule match_at_time) (simp_all add: pad_all_digit pad_not_Nil)
  have ne: "formatDuration (Fin ms) \<noteq> []"
    by (simp add: f)
  have v: "parseInt hh = t div 3600" "parseInt mm = t mod 3600 div 60" "parseInt ss = t mod 60"
    by (simp_all add: hh_def mm_def ss_def parseInt_pad)
  have pf: "parseFloat ss = real (t mod 60)"
    using parseFloat_digits [of ss] v(3) by (simp add: ss_def pad_all_digit)
  have "intervalToMs (formatDuration (Fin ms)) =
      (real (t div 3600) * 3600 + real (t mod 3600 div 60) * 60 + real (t mod 60)) * 1000"
    using regex_search_here [OF m] ne by (simp add: intervalToMs_def f v pf)
  also have "\<dots> = real ((t div 3600) * 3600 + (t mod 3600 div 60) * 60 + t mod 60) * 1000"
    by simp
  also have "\<dots> = real t * 1000"
    by (simp only: hms_sum)
  also have "\<dots> = real_of_int (\<lfloor>ms / 1000\<rfloor> * 1000)"
    using assms by (simp add: t_def)
  finally show ?thesis .
qed

lemma match_at_not_digit: "\<not> is_digit c \<Longrightarrow> match_at (c # s) = None"
  by (simp add: match_at_def digit_run_def)

lemma match_at_prefix_None:
  assumes "CHR '':'' \<notin> set p" and "p \<noteq> []" and "\<not> is_digit (last p)"
  shows "match_at (p @ t) = None"
proof -
  from assms(2,3) have ex: "\<exists>x \<in> set p. \<not> is_digit x"
    using last_in_set by blast
  then obtain x where "x \<in> set p" and "\<not> is_digit x"
    by blast
  then have d: "dropWhile is_digit (p @ t) = dropWhile is_digit p @ t"
    by (rule dropWhile_append1)
  from ex have ne: "dropWhile is_digit p \<noteq> []"
    by (simp add: dropWhile_eq_Nil_conv)
  then obtain c r where cr: "dropWhile is_digit p = c # r"
    by (cases "dropWhile is_digit p") auto
  then have "c \<in> set p"
    by (metis list.set_intros(1) set_dropWhileD)
  with assms(1) have "c \<noteq> CHR '':''" by auto
  then show ?thesis
    by (simp add: match_at_def digit_run_def d cr)
qed

lemma regex_search_skip:
  assumes "CHR '':'' \<notin> set p" and "p = [] \<or> \<not> is_digit (last p)"
  shows "regex_search (p @ t) = regex_search t"
  using assms
proof (induction p)
  case Nil
  then show ?case by simp
next
  case (Cons c p)
  have "match_at ((c # p) @ t) = None"
    using Cons.prems by (intro match_at_prefix_None) auto
  moreover have "regex_search (p @ t) = regex_search t"
    using Cons.prems by (intro Cons.IH) (auto split: if_splits)
  ultimately show ?case by simp
qed

lemma intervalToMs_skip:
  assumes "CHR '':'' \<notin> set p" and "p = [] \<or> \<not> is_digit (last p)" and "t \<noteq> []"
  shows "intervalToMs (p @ t) = intervalToMs t"
  using regex_search_skip [OF assms(1,2), of t] assms(3) by (simp add: intervalToMs_def)

lemma intervalToMs_time:
  assumes "\<forall>c \<in> set hh. is_digit c" "hh \<noteq> []"
    and "\<forall>c \<in> set mm. is_digit c" "mm \<noteq> []"
    and "\<forall>c \<in> set ss. is_digit c" "ss \<noteq> []"
    and "r = [] \<or> \<not> is_digit (hd r)"
  shows "intervalToMs (hh @ CHR '':'' # mm @ CHR '':'' # ss @ r) =
    (real (parseInt hh) * 3600 + real (parseInt mm) * 60 + parseFloat (ss @ fraction r)) * 1000"
  using regex_search_here [OF match_at_time [OF assms]] assms(2)
  by (simp add: intervalToMs_def)

lemma days_prefix_skip:
  "CHR '':'' \<notin> set (days_prefix n plural)"  "\<not> is_digit (last (days_prefix n plural))"
proof -
  have "CHR '':'' \<notin> set (digits n)"
    using digits_all_digit [of "CHR '':''" n] by auto
  then show "CHR '':'' \<notin> set (days_prefix n plural)"
    by (simp add: days_prefix_def)
  show "\<not> is_digit (last (days_prefix n plural))"
    by (simp add: days_prefix_def is_digit_def)
qed

lemmas codec_eval =
  formatDuration_def Let_def padStart_def toString_def magnitude_small digits_small digits_large
  digit_char_def
  signed_modulo_int_def intervalToMs_def match_at_def digit_run_def is_digit_def parseInt_def
  parseFloat_def digit_val_def

text \<open>
  Claim C6, as amended.  For every non-negative integer millisecond count \<open>n\<close> below
  \<open>2^53\<close>, parsing the formatted count gives \<open>floor (n / 1000) * 1000\<close>.
\<close>

theorem parse_format_floor:
  assumes "n < 2 ^ 53"
  shows "intervalToMs (formatDuration (Fin (real n))) = real_of_int (\<lfloor>real n / 1000\<rfloor> * 1000)"
proof (rule intervalToMs_formatDuration)
  show "0 \<le> real n"
    by simp
  have "\<lfloor>real n / 1000\<rfloor> = int (n div 1000)"
    using floor_divide_of_nat_eq [of n 1000, where ?'a = real] by simp
  then have "nat \<lfloor>real n / 1000\<rfloor> div 3600 \<le> n"
    by (simp add: div_le_dividend le_trans [OF div_le_dividend div_le_dividend])
  also have "n < 10 ^ 21"
    using assms by simp
  finally show "nat \<lfloor>real n / 1000\<rfloor> div 3600 < 10 ^ 21" .
qed

theorem parse_format_floor_witness:
  "(3725999::nat) < 2 ^ 53 \<and> intervalToMs (formatDuration (Fin (real 3725999))) = 3725000"
  using parse_format_floor [of 3725999] by simp

text \<open>
  Claim C6 as stated, for every non-negative integer, fails.  At
  \<open>4718592000000000000000000000\<close> milliseconds, a double on which every operation of
  lines 160 to 163 is exact, the hours are \<open>1.31072 * 10^21\<close>, \<^verbatim>\<open>toString\<close> prints
  them in exponent notation, and the regular expression of line 25 finds its leftmost
  match in \<^verbatim>\<open>21:00:00\<close>: the exponent is read as the hours.
\<close>

theorem parse_format_exponent:
  "formatDuration (Fin (real 4718592000000000000000000000)) = ''1.31072e+21:00:00'' \<and>
   intervalToMs (formatDuration (Fin (real 4718592000000000000000000000))) = 75600000 \<and>
   real_of_int (\<lfloor>real 4718592000000000000000000000 / 1000\<rfloor> * 1000) = 4718592000000000000000000000 \<and>
   intervalToMs (formatDuration (Fin (real 4718592000000000000000000000))) \<noteq>
     real_of_int (\<lfloor>real 4718592000000000000000000000 / 1000\<rfloor> * 1000)"
proof -
  have ds: "digits 1310720000000000000000 = ''1310720000000000000000''"
    by (simp add: digits_small digits_large digit_char_def)
  have ex: "exponential 1310720000000000000000 = ''1.31072e+21''"
    by (simp add: exponential_def significant_def ds digits_small digits_large digit_char_def)
  have hours: "toString 1310720000000000000000 = ''1.31072e+21''"
    by (simp add: toString_def magnitude_def ex)
  have zero: "toString 0 = ''0''"
    by (simp add: toString_def magnitude_small digits_small digit_char_def)
  have fl: "\<lfloor>real 4718592000000000000000000000 / 1000\<rfloor> = 4718592000000000000000000"
    by simp
  have fl': "\<lfloor>real_of_int 4718592000000000000000000 / 3600\<rfloor> = 1310720000000000000000"
    by simp
  have sm: "(4718592000000000000000000::int) smod 3600 = 0"
    "(4718592000000000000000000::int) smod 60 = 0"
    by (simp_all add: signed_modulo_int_def)
  have f: "formatDuration (Fin (real 4718592000000000000000000000)) = ''1.31072e+21:00:00''"
    unfolding formatDuration_def jsnum.case Let_def fl fl' sm
    by (simp add: hours zero padStart_def)
  have p: "intervalToMs ''1.31072e+21:00:00'' = 75600000"
    by (simp add: intervalToMs_def match_at_def digit_run_def is_digit_def parseInt_def
        parseFloat_def digit_val_def)
  have v: "real_of_int (\<lfloor>real 4718592000000000000000000000 / 1000\<rfloor> * 1000) =
      4718592000000000000000000000"
    by simp
  show ?thesis
    unfolding f p v by simp
qed

text \<open>
  Claim C10.  For an input made of a days prefix and a time \<^verbatim>\<open>HH:MM:SS\<close> or
  \<^verbatim>\<open>HH:MM:SS.fff\<close>, \<open>intervalToMs\<close> returns the milliseconds of the time alone:
  the number of days does not occur in the result.
\<close>

theorem intervalToMs_ignores_days:
  assumes "\<forall>c \<in> set hh. is_digit c" "hh \<noteq> []"
    and "\<forall>c \<in> set mm. is_digit c" "mm \<noteq> []"
    and "\<forall>c \<in> set ss. is_digit c" "ss \<noteq> []"
    and "\<forall>c \<in> set fff. is_digit c"
    and "rest = [] \<or> rest = CHR ''.'' # fff"
  shows "intervalToMs (days_prefix n plural @ hh @ '':'' @ mm @ '':'' @ ss @ rest) =
      (real (parseInt hh) * 3600 + real (parseInt mm) * 60 + parseFloat (ss @ rest)) * 1000"
proof -
  have r: "rest = [] \<or> \<not> is_digit (hd rest)"
    using assms(8) by (auto simp: is_digit_def)
  have fr: "fraction rest = rest"
    using assms(7,8) by auto
  have "intervalToMs (days_prefix n plural @ (hh @ CHR '':'' # mm @ CHR '':'' # ss @ rest)) =
      intervalToMs (hh @ CHR '':'' # mm @ CHR '':'' # ss @ rest)"
    using assms(2) by (intro intervalToMs_skip days_prefix_skip disjI2) simp
  then show ?thesis
    using intervalToMs_time [OF assms(1-6) r] by (simp add: fr)
qed

theorem intervalToMs_ignores_days_witness:
  "intervalToMs ''1 day 00:05:30'' = 330000 \<and> intervalToMs ''12 days 00:05:30.25'' = 330250"
  using intervalToMs_ignores_days [of "''00''" "''05''" "''30''" "[]" "[]" 1 False]
    intervalToMs_ignores_days [of "''00''" "''05''" "''30''" "''25''" "''.25''" 12 True]
  by (simp add: codec_eval days_prefix_def)

section \<open>Properties of the phase selector\<close>

text \<open>
  Claim C7.  For every hour of the day \<open>h\<close> in \<open>[0, 24)\<close> the phase is Learning
  exactly when \<open>0 \<le> h < 20\<close>, Quiz exactly when \<open>20 \<le> h < 20.5\<close> and Ranking exactly
  when \<open>20.5 \<le> h < 24\<close>; the bounds are half-open, so \<open>20\<close> is Quiz and \<open>20.5\<close> is
  Ranking.
\<close>

theorem currentPhase_windows:
  assumes "0 \<le> h" and "h < 24"
  shows "(currentPhase h = Learning \<longleftrightarrow> 0 \<le> h \<and> h < 20) \<and>
         (currentPhase h = Quiz \<longleftrightarrow> 20 \<le> h \<and> h < 20.5) \<and>
         (currentPhase h = Ranking \<longleftrightarrow> 20.5 \<le> h \<and> h < 24) \<and>
         currentPhase 20 = Quiz \<and> currentPhase 20.5 = Ranking"
  using assms by (auto simp: currentPhase_def)

theorem currentPhase_windows_witness:
  "currentPhase (getCurrentUTCHour 19 59) = Learning \<and>
   currentPhase (getCurrentUTCHour 20 0) = Quiz \<and>
   currentPhase (getCurrentUTCHour 20 29) = Quiz \<and>
   currentPhase (getCurrentUTCHour 20 30) = Ranking \<and>
   currentPhase (getCurrentUTCHour 23 59) = Ranking \<and>
   currentPhase (getCurrentUTCHour 0 0) = Learning"
  using currentPhase_windows [of "getCurrentUTCHour 19 59"]
    currentPhase_windows [of "getCurrentUTCHour 20 0"]
    currentPhase_windows [of "getCurrentUTCHour 20 29"]
    currentPhase_windows [of "getCurrentUTCHour 20 30"]
    currentPhase_windows [of "getCurrentUTCHour 23 59"]
    currentPhase_windows [of "getCurrentUTCHour 0 0"]
  by (simp add: getCurrentUTCHour_def)

section \<open>Properties of the scoring loop\<close>

lemma js_add_zero [simp]: "js_add t (Fin 0) = t"
  by (cases t) simp_all

lemma fst_score_loop:
  "fst (score_loop qs tm entries (c, t)) =
     c + length (filter (\<lambda>(w, a). \<exists>q. find (\<lambda>q. word q = w) qs = Some q \<and> correct q = a) entries)"
  by (induction entries arbitrary: c t) (auto split: option.splits)

lemma find_word_distinct:
  assumes "distinct (map word qs)"
  shows "(\<exists>q. find (\<lambda>q. word q = w) qs = Some q \<and> correct q = a) \<longleftrightarrow>
         (\<exists>q \<in> set qs. word q = w \<and> correct q = a)"
  using assms
proof (induction qs)
  case Nil
  then show ?case by simp
next
  case (Cons x qs)
  then show ?case by (auto simp: image_iff)
qed

lemma find_word_None: "w \<notin> word ` set qs \<Longrightarrow> find (\<lambda>q. word q = w) qs = None"
  by (auto simp: find_None_iff)

lemma fst_score_loop_matched:
  "fst (score_loop qs tm entries (c, t)) =
   fst (score_loop qs tm' (filter (\<lambda>(w, a). w \<in> word ` set qs) entries) (c, t'))"
proof -
  have "filter (\<lambda>(w, a). \<exists>q. find (\<lambda>q. word q = w) qs = Some q \<and> correct q = a)
          (filter (\<lambda>(w, a). w \<in> word ` set qs) entries) =
        filter (\<lambda>(w, a). \<exists>q. find (\<lambda>q. word q = w) qs = Some q \<and> correct q = a) entries"
    by (induction entries) (auto simp: find_word_None)
  then show ?thesis
    by (simp add: fst_score_loop)
qed

lemma snd_score_loop_own:
  assumes "\<forall>(w, a) \<in> set entries. w \<in> fst ` set tm \<or> w \<notin> set object_prototype_names"
  shows "snd (score_loop qs tm entries (c, Fin t)) = Fin (t + sum_list (map (\<lambda>(w, a). entry_ms tm w) entries))"
  using assms
proof (induction entries arbitrary: c t)
  case Nil
  then show ?case by simp
next
  case (Cons e entries)
  obtain w a where e: "e = (w, a)" by (cases e)
  show ?case
  proof (cases "map_of tm w")
    case None
    then have "w \<notin> fst ` set tm" by (simp add: map_of_eq_None_iff)
    with Cons.prems e have "w \<notin> set object_prototype_names" by auto
    with None Cons show ?thesis
      by (simp add: e get_property_def entry_ms_def)
  next
    case (Some v)
    with Cons show ?thesis
      by (simp add: e get_property_def entry_ms_def add.assoc)
  qed
qed

section \<open>Properties of the submission handler\<close>

lemma write_user_ok: "f (length calls) = None \<Longrightarrow> write_user f c w ok s calls = (ok, w s, calls @ [c])"
  by (simp add: write_user_def)

lemma submit_valid:
  assumes b: "body_email b = Some em" "em \<noteq> []" "body_answers b = Some answers" "body_time b = Some tm"
    and f: "f 0 = None" "f 1 = None" "f 2 = None"
    and sc: "score_loop (questions s) tm answers (0, Fin 0) = (c, t)"
  shows "submit f s b =
    upsert f (select_single em s) em c t (Submitted c (length answers) (formatDuration t)) s
      [Select_questions, Select_user_eq em]"
  using assms by (simp add: submit_def Let_def)

lemma upsert_existing:
  assumes "f (length calls) = None"
  shows "upsert f (Some u) em c t ok s calls =
    (ok,
     update_where (\<lambda>v. email v = em)
       (\<lambda>v. v\<lparr>number_of_correct_ans := number_of_correct_ans u + c,
              time := formatDuration (js_add (Fin (intervalToMs (time u))) t)\<rparr>) s,
     calls @ [Update_user_eq em (number_of_correct_ans u + c)
        (formatDuration (js_add (Fin (intervalToMs (time u))) t))])"
  using assms by (simp add: upsert_def Let_def write_user_ok)

lemma upsert_absent:
  assumes "f (length calls) = None"
  shows "upsert f None em c t ok s calls =
    (ok,
     insert_row \<lparr>email = em, number_of_correct_ans = c, time = formatDuration t, rank = 0\<rparr> s,
     calls @ [Insert_user \<lparr>email = em, number_of_correct_ans = c, time = formatDuration t, rank = 0\<rparr>])"
  using assms by (simp add: upsert_def Let_def write_user_ok)

lemma filter_update_eq:
  "filter (\<lambda>v. email v = em) (map (\<lambda>v. if email v = em then v\<lparr>number_of_correct_ans := n, time := d\<rparr> else v) us) =
   map (\<lambda>v. v\<lparr>number_of_correct_ans := n, time := d\<rparr>) (filter (\<lambda>v. email v = em) us)"
  by (induction us) auto

lemma filter_update_neq:
  "filter (\<lambda>v. email v \<noteq> em) (map (\<lambda>v. if email v = em then v\<lparr>number_of_correct_ans := n, time := d\<rparr> else v) us) =
   filter (\<lambda>v. email v \<noteq> em) us"
  by (induction us) auto

lemma submit_valid_response:
  assumes "body_email b = Some em" "em \<noteq> []" "body_answers b = Some answers" "body_time b = Some tm"
    and "f 0 = None" "f 1 = None" "f 2 = None"
    and "score_loop (questions s) tm answers (0, Fin 0) = (c, t)"
  shows "fst (submit f s b) = Submitted c (length answers) (formatDuration t)"
proof -
  have two: "f (length [Select_questions, Select_user_eq em]) = None"
    using assms(7) by (simp add: numeral_2_eq_2)
  note ue = upsert_existing [where f = f and calls = "[Select_questions, Select_user_eq em]", OF two]
  note ua = upsert_absent [where f = f and calls = "[Select_questions, Select_user_eq em]", OF two]
  show ?thesis
    by (cases "select_single em s") (simp_all add: submit_valid [OF assms] ue ua)
qed

text \<open>
  Claim C1.  A submission that passes the validation, in a request whose three store
  calls succeed: when exactly one record has the email, that record afterwards holds
  the old count plus the count of the attempt, and as its time the formatted sum of the
  parsed old time and the milliseconds of the attempt, the other records being as
  before; when no record has the email, a record with the values of the attempt and
  rank 0 is added.
\<close>

theorem submit_merges:
  assumes "body_email b = Some em" "em \<noteq> []" "body_answers b = Some answers" "body_time b = Some tm"
    and "f 0 = None" "f 1 = None" "f 2 = None"
    and "score_loop (questions s) tm answers (0, Fin 0) = (c, t)"
    and "submit f s b = (r, s', calls)"
  shows "(\<forall>u. filter (\<lambda>v. email v = em) (users s) = [u] \<longrightarrow>
            filter (\<lambda>v. email v = em) (users s') =
              [u\<lparr>number_of_correct_ans := number_of_correct_ans u + c,
                 time := formatDuration (js_add (Fin (intervalToMs (time u))) t)\<rparr>] \<and>
            filter (\<lambda>v. email v \<noteq> em) (users s') = filter (\<lambda>v. email v \<noteq> em) (users s) \<and>
            length (users s') = length (users s)) \<and>
         (filter (\<lambda>v. email v = em) (users s) = [] \<longrightarrow>
            users s' = users s @
              [\<lparr>email = em, number_of_correct_ans = c, time = formatDuration t, rank = 0\<rparr>]) \<and>
         r = Submitted c (length answers) (formatDuration t)"
proof -
  note sv = submit_valid [OF assms(1-8)]
  have two: "f (length [Select_questions, Select_user_eq em]) = None"
    using assms(7) by (simp add: numeral_2_eq_2)
  note ue = upsert_existing [where f = f and calls = "[Select_questions, Select_user_eq em]", OF two]
  note ua = upsert_absent [where f = f and calls = "[Select_questions, Select_user_eq em]", OF two]
  have existing: "filter (\<lambda>v. email v = em) (users s') =
        [u\<lparr>number_of_correct_ans := number_of_correct_ans u + c,
           time := formatDuration (js_add (Fin (intervalToMs (time u))) t)\<rparr>] \<and>
      filter (\<lambda>v. email v \<noteq> em) (users s') = filter (\<lambda>v. email v \<noteq> em) (users s) \<and>
      length (users s') = length (users s) \<and> r = Submitted c (length answers) (formatDuration t)"
    if u: "filter (\<lambda>v. email v = em) (users s) = [u]" for u
  proof -
    from u have "select_single em s = Some u"
      by (simp add: select_single_def)
    with sv assms(9) ue show ?thesis
      by (auto simp: update_where_def filter_update_eq filter_update_neq u)
  qed
  have absent: "users s' = users s @
        [\<lparr>email = em, number_of_correct_ans = c, time = formatDuration t, rank = 0\<rparr>] \<and>
      r = Submitted c (length answers) (formatDuration t)"
    if n: "filter (\<lambda>v. email v = em) (users s) = []"
  proof -
    from n have "select_single em s = None"
      by (simp add: select_single_def)
    with sv assms(9) ua show ?thesis
      by (auto simp: insert_row_def)
  qed
  have r: "r = Submitted c (length answers) (formatDuration t)"
  proof (cases "select_single em s")
    case None
    with sv assms(9) ua show ?thesis by auto
  next
    case (Some u)
    with sv assms(9) ue show ?thesis by auto
  qed
  from existing absent r show ?thesis by blast
qed

lemmas handler_eval =
  submit_def upsert_def write_user_def select_single_def update_where_def insert_row_def
  no_faults_def get_property_def object_prototype_names_def Let_def

theorem submit_merges_witness:
  "submit no_faults
     \<lparr>users = [], words = [], questions = [\<lparr>word = ''cat'', correct = ''gato''\<rparr>, \<lparr>word = ''dog'', correct = ''gato''\<rparr>]\<rparr>
     \<lparr>body_email = Some ''a@b.c'', body_answers = Some [(''cat'', ''gato'')], body_time = Some [(''cat'', 5000)]\<rparr> =
   (Submitted 1 1 ''00:00:05'',
    \<lparr>users = [\<lparr>email = ''a@b.c'', number_of_correct_ans = 1, time = ''00:00:05'', rank = 0\<rparr>], words = [],
      questions = [\<lparr>word = ''cat'', correct = ''gato''\<rparr>, \<lparr>word = ''dog'', correct = ''gato''\<rparr>]\<rparr>,
    [Select_questions, Select_user_eq ''a@b.c'',
     Insert_user \<lparr>email = ''a@b.c'', number_of_correct_ans = 1, time = ''00:00:05'', rank = 0\<rparr>]) \<and>
   users (fst (snd (submit no_faults
     \<lparr>users = [\<lparr>email = ''a@b.c'', number_of_correct_ans = 1, time = ''00:00:05'', rank = 0\<rparr>], words = [],
      questions = [\<lparr>word = ''cat'', correct = ''gato''\<rparr>, \<lparr>word = ''dog'', correct = ''gato''\<rparr>]\<rparr>
     \<lparr>body_email = Some ''a@b.c'', body_answers = Some [(''dog'', ''perro'')], body_time = Some [(''dog'', 3000)]\<rparr>))) =
   [\<lparr>email = ''a@b.c'', number_of_correct_ans = 1, time = ''00:00:08'', rank = 0\<rparr>]"
  (is "submit no_faults ?s0 ?b1 = (?r1, ?s1, ?c1) \<and> users (fst (snd (submit no_faults ?s1' ?b2))) = [?u2]")
proof
  show "submit no_faults ?s0 ?b1 = (?r1, ?s1, ?c1)"
    by (simp add: handler_eval codec_eval)
next
  let ?u1 = "\<lparr>email = ''a@b.c'', number_of_correct_ans = 1, time = ''00:00:05'', rank = 0\<rparr>"
  obtain r s' calls where sub: "submit no_faults ?s1' ?b2 = (r, s', calls)"
    by (cases "submit no_faults ?s1' ?b2")
  have sc: "score_loop (questions ?s1') [(''dog'', 3000)] [(''dog'', ''perro'')] (0, Fin 0) = (0, Fin 3000)"
    by (simp add: get_property_def)
  have "filter (\<lambda>v. email v = ''a@b.c'') (users s') =
      [?u1\<lparr>number_of_correct_ans := number_of_correct_ans ?u1 + 0,
           time := formatDuration (js_add (Fin (intervalToMs (time ?u1))) (Fin 3000))\<rparr>] \<and>
      filter (\<lambda>v. email v \<noteq> ''a@b.c'') (users s') = filter (\<lambda>v. email v \<noteq> ''a@b.c'') (users ?s1') \<and>
      length (users s') = length (users ?s1')"
    using submit_merges [of ?b2 "''a@b.c''" "[(''dog'', ''perro'')]" "[(''dog'', 3000)]" no_faults ?s1' 0 "Fin 3000" r s' calls] sc sub
    by (simp add: no_faults_def)
  moreover have "formatDuration (js_add (Fin (intervalToMs ''00:00:05'')) (Fin 3000)) = ''00:00:08''"
    by (simp add: codec_eval)
  ultimately have "filter (\<lambda>v. email v = ''a@b.c'') (users s') = [?u2]" and "length (users s') = 1"
    by simp_all
  then have "users s' = [?u2]"
    by (cases "users s'") (auto split: if_splits)
  with sub show "users (fst (snd (submit no_faults ?s1' ?b2))) = [?u2]"
    by simp
qed

text \<open>
  Claim C4, as amended.  A submission whose email is absent or the empty string, or
  whose answers or whose time mapping is absent, gets the validation error, and the
  handler makes no call to the store: the store is as before and the list of calls is
  empty, whatever the store would have answered.
\<close>

theorem submit_missing_field:
  assumes "body_email b = None \<or> body_email b = Some [] \<or> body_answers b = None \<or> body_time b = None"
  shows "submit f s b = (Bad_request ''Missing required fields: email, answers, time'', s, [])"
  using assms by (auto simp: submit_def split: option.splits)

theorem submit_missing_field_witness:
  "submit (\<lambda>i. Some (Returned ''store is down''))
     \<lparr>users = [], words = [], questions = []\<rparr>
     \<lparr>body_email = Some ''a@b.c'', body_answers = Some [(''cat'', ''gato'')], body_time = None\<rparr> =
   (Bad_request ''Missing required fields: email, answers, time'',
    \<lparr>users = [], words = [], questions = []\<rparr>, [])"
  using submit_missing_field [of "\<lparr>body_email = Some ''a@b.c'', body_answers = Some [(''cat'', ''gato'')], body_time = None\<rparr>"]
  by simp

text \<open>
  Claim C4 as stated fails: with an email and with empty objects for the answers and
  the times, the test of line 129 lets the request through (an object is truthy), the
  store is called three times and a record is created.
\<close>

theorem submit_empty_mappings:
  "submit no_faults \<lparr>users = [], words = [], questions = []\<rparr>
     \<lparr>body_email = Some ''a@b.c'', body_answers = Some [], body_time = Some []\<rparr> =
   (Submitted 0 0 ''00:00:00'',
    \<lparr>users = [\<lparr>email = ''a@b.c'', number_of_correct_ans = 0, time = ''00:00:00'', rank = 0\<rparr>],
      words = [], questions = []\<rparr>,
    [Select_questions, Select_user_eq ''a@b.c'',
     Insert_user \<lparr>email = ''a@b.c'', number_of_correct_ans = 0, time = ''00:00:00'', rank = 0\<rparr>])"
  by (simp add: handler_eval codec_eval)

text \<open>
  Claim C8.  The count of the attempt is the number of entries of \<open>answers\<close> whose word
  has a question (the one the lookup finds) with the submitted answer as its accepted
  answer; when the words of the questions are distinct this is the number of entries
  for which some question has that word and that answer.  Entries whose word has no
  question change nothing: the count is that of the answers without them, and a valid
  submission is answered with the count, the number of entries and the formatted time.
\<close>

theorem correct_count:
  "fst (score_loop qs tm answers (0, Fin 0)) =
     length (filter (\<lambda>(w, a). \<exists>q. find (\<lambda>q. word q = w) qs = Some q \<and> correct q = a) answers) \<and>
   (distinct (map word qs) \<longrightarrow>
     fst (score_loop qs tm answers (0, Fin 0)) =
       length (filter (\<lambda>(w, a). \<exists>q \<in> set qs. word q = w \<and> correct q = a) answers)) \<and>
   fst (score_loop qs tm answers (0, Fin 0)) =
     fst (score_loop qs tm (filter (\<lambda>(w, a). w \<in> word ` set qs) answers) (0, Fin 0)) \<and>
   (body_email b = Some em \<and> em \<noteq> [] \<and> body_answers b = Some answers \<and> body_time b = Some tm \<and>
    questions s = qs \<longrightarrow>
     fst (submit no_faults s b) =
       Submitted (fst (score_loop qs tm answers (0, Fin 0))) (length answers)
         (formatDuration (snd (score_loop qs tm answers (0, Fin 0)))))"
proof (intro conjI impI)
  show "fst (score_loop qs tm answers (0, Fin 0)) =
     length (filter (\<lambda>(w, a). \<exists>q. find (\<lambda>q. word q = w) qs = Some q \<and> correct q = a) answers)"
    by (simp add: fst_score_loop)
  show "fst (score_loop qs tm answers (0, Fin 0)) =
       length (filter (\<lambda>(w, a). \<exists>q \<in> set qs. word q = w \<and> correct q = a) answers)"
    if "distinct (map word qs)"
    by (simp add: fst_score_loop find_word_distinct [OF that])
  show "fst (score_loop qs tm answers (0, Fin 0)) =
     fst (score_loop qs tm (filter (\<lambda>(w, a). w \<in> word ` set qs) answers) (0, Fin 0))"
    by (rule fst_score_loop_matched)
  show "fst (submit no_faults s b) =
       Submitted (fst (score_loop qs tm answers (0, Fin 0))) (length answers)
         (formatDuration (snd (score_loop qs tm answers (0, Fin 0))))"
    if h: "body_email b = Some em \<and> em \<noteq> [] \<and> body_answers b = Some answers \<and> body_time b = Some tm \<and>
      questions s = qs"
  proof -
    obtain c t where sc: "score_loop (questions s) tm answers (0, Fin 0) = (c, t)"
      by (cases "score_loop (questions s) tm answers (0, Fin 0)")
    have "fst (submit no_faults s b) = Submitted c (length answers) (formatDuration t)"
      using h sc by (intro submit_valid_response [where em = em and tm = tm]) (simp_all add: no_faults_def)
    with h sc show ?thesis by auto
  qed
qed

theorem correct_count_witness:
  "distinct (map word [\<lparr>word = ''cat'', correct = ''gato''\<rparr>, \<lparr>word = ''dog'', correct = ''perro''\<rparr>]) \<and>
   fst (score_loop [\<lparr>word = ''cat'', correct = ''gato''\<rparr>, \<lparr>word = ''dog'', correct = ''perro''\<rparr>] []
          [(''cat'', ''gato''), (''bird'', ''pajaro''), (''dog'', ''gato'')] (0, Fin 0)) = 1 \<and>
   length (filter (\<lambda>(w, a). \<exists>q \<in> set [\<lparr>word = ''cat'', correct = ''gato''\<rparr>, \<lparr>word = ''dog'', correct = ''perro''\<rparr>].
      word q = w \<and> correct q = a) [(''cat'', ''gato''), (''bird'', ''pajaro''), (''dog'', ''gato'')]) = 1"
  using correct_count [of "[\<lparr>word = ''cat'', correct = ''gato''\<rparr>, \<lparr>word = ''dog'', correct = ''perro''\<rparr>]" "[]"
      "[(''cat'', ''gato''), (''bird'', ''pajaro''), (''dog'', ''gato'')]"]
  by simp

text \<open>
  Claim C3.  The guard of line 154 reads \<^verbatim>\<open>time[word]\<close>, so a word that has no entry
  in the time mapping but names a member of \<^verbatim>\<open>Object.prototype\<close> does not contribute
  zero: the read gives the inherited member, the total of the attempt becomes \<open>NaN\<close>
  and so does the reported time.
\<close>

theorem inherited_name_total:
  "score_loop [] [(''cat'', 5000)] [(''constructor'', ''x'')] (0, Fin 0) = (0, NaN) \<and>
   fst (submit no_faults \<lparr>users = [], words = [], questions = []\<rparr>
     \<lparr>body_email = Some ''a@b.c'', body_answers = Some [(''constructor'', ''x'')],
      body_time = Some [(''cat'', 5000)]\<rparr>) = Submitted 0 1 ''NaN:NaN:NaN''"
  by (simp add: handler_eval formatDuration_def)

section \<open>Properties of the read handler\<close>

lemma learning_frame:
  assumes "learning f s = (r, s', calls)"
  shows "map (\<lambda>u. u\<lparr>rank := 0\<rparr>) (users s') = map (\<lambda>u. u\<lparr>rank := 0\<rparr>) (users s)"
    and "words s' = words s" and "questions s' = questions s"
  using assms
  by (auto simp: learning_def send_words_def update_where_def split: option.splits fault.splits)

lemma learning_reset:
  assumes "f 0 = None" and "\<forall>u \<in> set (users s). email u \<noteq> []" and "learning f s = (r, s', calls)"
  shows "users s' = map (\<lambda>u. u\<lparr>rank := 0\<rparr>) (users s)"
  using assms
  by (auto simp: learning_def send_words_def update_where_def split: option.splits fault.splits)

lemma learning_words:
  assumes "learning f s = (Words w, s', calls)"
  shows "w = words s" and "calls = [Update_rank_neq [] 0, Select_words]"
  using assms
  by (auto simp: learning_def send_words_def update_where_def split: option.splits fault.splits)

text \<open>
  What the Learning branch does for every answer of the store: it changes no table but
  the users, and of a user no field but the rank, and the words are read and returned
  after the reset was issued.  The ranks are all 0 afterwards when the reset of line 48
  succeeds (all emails being non-empty, as the data model has it).
\<close>

lemma learning_resets_ranks:
  assumes "currentPhase h = Learning" and "get_data dur f s h em = (r, s', calls)"
  shows "map (\<lambda>u. u\<lparr>rank := 0\<rparr>) (users s') = map (\<lambda>u. u\<lparr>rank := 0\<rparr>) (users s) \<and>
         words s' = words s \<and> questions s' = questions s \<and>
         (f 0 = None \<and> (\<forall>u \<in> set (users s). email u \<noteq> []) \<longrightarrow>
            users s' = map (\<lambda>u. u\<lparr>rank := 0\<rparr>) (users s) \<and> (\<forall>u \<in> set (users s'). rank u = 0)) \<and>
         (\<forall>w. r = Words w \<longrightarrow> w = words s \<and> calls = [Update_rank_neq [] 0, Select_words])"
proof -
  from assms have l: "learning f s = (r, s', calls)"
    by (simp add: get_data_def)
  have "users s' = map (\<lambda>u. u\<lparr>rank := 0\<rparr>) (users s) \<and> (\<forall>u \<in> set (users s'). rank u = 0)"
    if "f 0 = None \<and> (\<forall>u \<in> set (users s). email u \<noteq> [])"
    using learning_reset [OF _ _ l] that by auto
  moreover have "w = words s \<and> calls = [Update_rank_neq [] 0, Select_words]" if "r = Words w" for w
    using learning_words [of f s w s' calls] l that by simp
  ultimately show ?thesis
    using learning_frame [OF l] by blast
qed

lemma length_assign_ranks [simp]: "length (assign_ranks us) = length us"
  by (simp add: assign_ranks_def)

lemma nth_assign_ranks: "i < length us \<Longrightarrow> assign_ranks us ! i = (us ! i)\<lparr>rank := i + 1\<rparr>"
  by (simp add: assign_ranks_def nth_enumerate_eq)

lemma unrank_assign_ranks:
  "map (\<lambda>u. u\<lparr>rank := 0\<rparr>) (assign_ranks us) = map (\<lambda>u. u\<lparr>rank := 0\<rparr>) us"
  by (rule nth_equalityI) (simp_all add: nth_assign_ranks)

lemma key_le_ranks_before:
  "(- int (number_of_correct_ans u), dur (time u)) \<le> (- int (number_of_correct_ans v), dur (time v))
    \<longleftrightarrow> ranks_before dur u v"
  by (auto simp: ranks_before_def)

lemma sorted_select_users_ordered: "sorted_wrt (ranks_before dur) (select_users_ordered dur s)"
proof -
  let ?key = "\<lambda>u. (- int (number_of_correct_ans u), dur (time u))"
  have "sorted (map ?key (sort_key ?key (users s)))"
    by (rule sorted_sort_key)
  then have "sorted_wrt (\<lambda>u v. ?key u \<le> ?key v) (sort_key ?key (users s))"
    by (simp only: sorted_map)
  moreover have "(\<lambda>u v. ?key u \<le> ?key v) = ranks_before dur"
    by (intro ext) (rule key_le_ranks_before)
  ultimately show ?thesis
    by (simp only: select_users_ordered_def)
qed

lemma sorted_assign_ranks:
  assumes "sorted_wrt (ranks_before dur) us"
  shows "sorted_wrt (ranks_before dur) (assign_ranks us)"
  using assms
  by (simp add: sorted_wrt_iff_nth_less nth_assign_ranks ranks_before_def)

lemma rankings_response:
  assumes "rankings dur f s em = (Rankings userData leaderboard, s', calls)"
  shows "leaderboard = assign_ranks (select_users_ordered dur s)"
    and "userData = find (\<lambda>u. email u = em) leaderboard"
  using assms
  by (auto simp: rankings_def Let_def split: option.splits fault.splits prod.splits)

text \<open>
  Claim C2.  In the Ranking phase a response with rankings has as its leaderboard all
  the user records (ranks aside), in the order of \<open>ranks_before\<close>: the count of correct
  answers descending and, among equal counts, the time ascending; the rank of each
  element is its position counted from 1; and the requesting user is the element of the
  leaderboard with the email of the request, absent when there is none.
\<close>

theorem rankings_leaderboard:
  assumes "currentPhase h = Ranking"
    and "get_data dur f s h em = (Rankings userData leaderboard, s', calls)"
  shows "mset (map (\<lambda>u. u\<lparr>rank := 0\<rparr>) leaderboard) = mset (map (\<lambda>u. u\<lparr>rank := 0\<rparr>) (users s)) \<and>
         sorted_wrt (ranks_before dur) leaderboard \<and>
         (\<forall>i < length leaderboard. rank (leaderboard ! i) = i + 1) \<and>
         userData = find (\<lambda>u. email u = em) leaderboard \<and>
         (userData = None \<longleftrightarrow> em \<notin> email ` set leaderboard) \<and>
         (\<forall>u. userData = Some u \<longrightarrow> u \<in> set leaderboard \<and> email u = em)"
proof -
  from assms have r: "rankings dur f s em = (Rankings userData leaderboard, s', calls)"
    by (simp add: get_data_def)
  note lb = rankings_response [OF r]
  have "mset (map (\<lambda>u. u\<lparr>rank := 0\<rparr>) (select_users_ordered dur s)) =
      mset (map (\<lambda>u. u\<lparr>rank := 0\<rparr>) (users s))"
    by (simp add: select_users_ordered_def)
  then have full: "mset (map (\<lambda>u. u\<lparr>rank := 0\<rparr>) leaderboard) = mset (map (\<lambda>u. u\<lparr>rank := 0\<rparr>) (users s))"
    by (simp add: lb(1) unrank_assign_ranks)
  have ord: "sorted_wrt (ranks_before dur) leaderboard"
    unfolding lb(1) by (intro sorted_assign_ranks sorted_select_users_ordered)
  have pos: "\<forall>i < length leaderboard. rank (leaderboard ! i) = i + 1"
    by (simp add: lb(1) nth_assign_ranks)
  have none: "userData = None \<longleftrightarrow> em \<notin> email ` set leaderboard"
    by (auto simp: lb(2) find_None_iff)
  have some: "\<forall>u. userData = Some u \<longrightarrow> u \<in> set leaderboard \<and> email u = em"
    by (auto simp: lb(2) find_Some_iff)
  from full ord pos lb(2) none some show ?thesis by blast
qed

lemmas read_eval =
  get_data_def currentPhase_def getCurrentUTCHour_def learning_def send_words_def quiz_def
  rankings_def
  select_users_ordered_def assign_ranks_def update_where_def no_faults_def Let_def

lemma learning_resets_ranks_example:
  "get_data intervalToMs no_faults
     \<lparr>users = [\<lparr>email = ''a@b.c'', number_of_correct_ans = 1, time = ''00:00:09'', rank = 2\<rparr>,
               \<lparr>email = ''b@b.c'', number_of_correct_ans = 2, time = ''00:00:05'', rank = 1\<rparr>],
      words = [(''cat'', ''gato'')], questions = []\<rparr>
     (getCurrentUTCHour 10 15) ''a@b.c'' =
   (Words [(''cat'', ''gato'')],
    \<lparr>users = [\<lparr>email = ''a@b.c'', number_of_correct_ans = 1, time = ''00:00:09'', rank = 0\<rparr>,
              \<lparr>email = ''b@b.c'', number_of_correct_ans = 2, time = ''00:00:05'', rank = 0\<rparr>],
      words = [(''cat'', ''gato'')], questions = []\<rparr>,
    [Update_rank_neq [] 0, Select_words])"
  (is "get_data _ _ ?s ?h ?em = (?r, ?s', ?calls)")
proof -
  obtain r s' calls where g: "get_data intervalToMs no_faults ?s ?h ?em = (r, s', calls)"
    by (cases "get_data intervalToMs no_faults ?s ?h ?em")
  have ph: "currentPhase ?h = Learning"
    by (simp add: currentPhase_def getCurrentUTCHour_def)
  from learning_resets_ranks [OF ph g]
  have "users s' = users ?s'" and "words s' = words ?s'" and "questions s' = questions ?s'"
    by (simp_all add: no_faults_def)
  then have s': "s' = ?s'"
    by (cases s') simp
  have "fst (get_data intervalToMs no_faults ?s ?h ?em) = ?r"
    and "snd (snd (get_data intervalToMs no_faults ?s ?h ?em)) = ?calls"
    by (simp_all add: read_eval)
  with g s' show ?thesis by simp
qed

theorem rankings_leaderboard_witness:
  "sorted_wrt (ranks_before intervalToMs)
     [\<lparr>email = ''c@b.c'', number_of_correct_ans = 2, time = ''00:00:05'', rank = 1\<rparr>,
      \<lparr>email = ''b@b.c'', number_of_correct_ans = 2, time = ''00:00:07'', rank = 2\<rparr>,
      \<lparr>email = ''a@b.c'', number_of_correct_ans = 1, time = ''00:00:03'', rank = 3\<rparr>] \<and>
   fst (get_data intervalToMs no_faults
     \<lparr>users = [\<lparr>email = ''a@b.c'', number_of_correct_ans = 1, time = ''00:00:03'', rank = 0\<rparr>,
               \<lparr>email = ''b@b.c'', number_of_correct_ans = 2, time = ''00:00:07'', rank = 0\<rparr>,
               \<lparr>email = ''c@b.c'', number_of_correct_ans = 2, time = ''00:00:05'', rank = 0\<rparr>],
      words = [], questions = []\<rparr>
     (getCurrentUTCHour 21 0) ''b@b.c'') =
   Rankings (Some \<lparr>email = ''b@b.c'', number_of_correct_ans = 2, time = ''00:00:07'', rank = 2\<rparr>)
     [\<lparr>email = ''c@b.c'', number_of_correct_ans = 2, time = ''00:00:05'', rank = 1\<rparr>,
      \<lparr>email = ''b@b.c'', number_of_correct_ans = 2, time = ''00:00:07'', rank = 2\<rparr>,
      \<lparr>email = ''a@b.c'', number_of_correct_ans = 1, time = ''00:00:03'', rank = 3\<rparr>]"
  (is "sorted_wrt _ ?lb \<and> fst (get_data _ _ ?s ?h ?em) = Rankings ?ud ?lb")
proof -
  have t: "intervalToMs ''00:00:03'' = 3000" "intervalToMs ''00:00:05'' = 5000"
    "intervalToMs ''00:00:07'' = 7000"
    by (simp_all add: codec_eval)
  have r: "fst (get_data intervalToMs no_faults ?s ?h ?em) = Rankings ?ud ?lb"
    by (simp add: read_eval t)
  then obtain s' calls where g: "get_data intervalToMs no_faults ?s ?h ?em = (Rankings ?ud ?lb, s', calls)"
    by (cases "get_data intervalToMs no_faults ?s ?h ?em") auto
  have ph: "currentPhase ?h = Ranking"
    by (simp add: currentPhase_def getCurrentUTCHour_def)
  from rankings_leaderboard [OF ph g] have "sorted_wrt (ranks_before intervalToMs) ?lb"
    by blast
  with r show ?thesis by blast
qed

lemma update_ranks_not_rejected:
  assumes "\<forall>i e. f i \<noteq> Some (Rejected e)"
  shows "fst (update_ranks f us (s, calls)) = None"
  using assms
proof (induction us arbitrary: s calls)
  case Nil
  then show ?case by simp
next
  case (Cons u us)
  then show ?case
    by (cases "f (length calls)") (auto split: fault.splits)
qed

lemma rankings_despite_returned_errors:
  assumes "f 0 = None" and "\<forall>i e. f i \<noteq> Some (Rejected e)"
  shows "fst (rankings dur f s em) =
    Rankings (find (\<lambda>u. email u = em) (assign_ranks (select_users_ordered dur s)))
      (assign_ranks (select_users_ordered dur s))"
proof -
  obtain x s' calls where u: "update_ranks f (assign_ranks (select_users_ordered dur s))
      (s, [Select_users_ordered]) = (x, s', calls)"
    by (cases "update_ranks f (assign_ranks (select_users_ordered dur s)) (s, [Select_users_ordered])")
  with update_ranks_not_rejected [OF assms(2), of "assign_ranks (select_users_ordered dur s)" s "[Select_users_ordered]"]
  have "x = None" by simp
  with u assms(1) show ?thesis
    by (simp add: rankings_def Let_def)
qed

text \<open>
  Claim C9.  The result of the awaited reset of lines 48 to 51 is not looked at.  When
  the store answers the reset with an error, the handler still reads the words and
  returns them, and the ranks of the users are what they were: the word content is
  returned without every rank having been set to 0.
\<close>

theorem reset_error_ignored:
  "get_data intervalToMs (no_faults(0 \<mapsto> Returned ''write failed''))
     \<lparr>users = [\<lparr>email = ''a@b.c'', number_of_correct_ans = 1, time = ''00:00:09'', rank = 2\<rparr>,
               \<lparr>email = ''b@b.c'', number_of_correct_ans = 2, time = ''00:00:05'', rank = 1\<rparr>],
      words = [(''cat'', ''gato'')], questions = []\<rparr>
     (getCurrentUTCHour 10 15) ''a@b.c'' =
   (Words [(''cat'', ''gato'')],
    \<lparr>users = [\<lparr>email = ''a@b.c'', number_of_correct_ans = 1, time = ''00:00:09'', rank = 2\<rparr>,
              \<lparr>email = ''b@b.c'', number_of_correct_ans = 2, time = ''00:00:05'', rank = 1\<rparr>],
      words = [(''cat'', ''gato'')], questions = []\<rparr>,
    [Update_rank_neq [] 0, Select_words])"
  by (simp add: read_eval)

text \<open>
  Claim C5.  The result of the awaited rank update of line 98 is not looked at.  When
  the store answers the first rank update with an error, the loop goes on, the handler
  answers with the rankings, and the store holds a rank that differs from the one in
  the response; only a rejected promise ends in the \<^verbatim>\<open>catch\<close> block.
\<close>

theorem rank_write_error_ignored:
  "get_data intervalToMs (no_faults(1 \<mapsto> Returned ''write failed''))
     \<lparr>users = [\<lparr>email = ''a@b.c'', number_of_correct_ans = 1, time = ''00:00:09'', rank = 0\<rparr>,
               \<lparr>email = ''b@b.c'', number_of_correct_ans = 2, time = ''00:00:05'', rank = 0\<rparr>],
      words = [], questions = []\<rparr>
     (getCurrentUTCHour 21 0) ''a@b.c'' =
   (Rankings (Some \<lparr>email = ''a@b.c'', number_of_correct_ans = 1, time = ''00:00:09'', rank = 2\<rparr>)
      [\<lparr>email = ''b@b.c'', number_of_correct_ans = 2, time = ''00:00:05'', rank = 1\<rparr>,
       \<lparr>email = ''a@b.c'', number_of_correct_ans = 1, time = ''00:00:09'', rank = 2\<rparr>],
    \<lparr>users = [\<lparr>email = ''a@b.c'', number_of_correct_ans = 1, time = ''00:00:09'', rank = 2\<rparr>,
              \<lparr>email = ''b@b.c'', number_of_correct_ans = 2, time = ''00:00:05'', rank = 0\<rparr>],
      words = [], questions = []\<rparr>,
    [Select_users_ordered, Update_rank_eq ''b@b.c'' 1, Update_rank_eq ''a@b.c'' 2])"
proof -
  have t: "intervalToMs ''00:00:09'' = 9000" "intervalToMs ''00:00:05'' = 5000"
    by (simp_all add: codec_eval)
  show ?thesis
    by (simp add: read_eval t)
qed

lemma rank_write_rejected:
  "get_data intervalToMs (no_faults(2 \<mapsto> Rejected ''connection lost''))
     \<lparr>users = [\<lparr>email = ''a@b.c'', number_of_correct_ans = 1, time = ''00:00:09'', rank = 0\<rparr>,
               \<lparr>email = ''b@b.c'', number_of_correct_ans = 2, time = ''00:00:05'', rank = 0\<rparr>],
      words = [], questions = []\<rparr>
     (getCurrentUTCHour 21 0) ''a@b.c'' =
   (Server_error ''connection lost'',
    \<lparr>users = [\<lparr>email = ''a@b.c'', number_of_correct_ans = 1, time = ''00:00:09'', rank = 0\<rparr>,
              \<lparr>email = ''b@b.c'', number_of_correct_ans = 2, time = ''00:00:05'', rank = 1\<rparr>],
      words = [], questions = []\<rparr>,
    [Select_users_ordered, Update_rank_eq ''b@b.c'' 1, Update_rank_eq ''a@b.c'' 2])"
proof -
  have t: "intervalToMs ''00:00:09'' = 9000" "intervalToMs ''00:00:05'' = 5000"
    by (simp_all add: codec_eval)
  show ?thesis
    by (simp add: read_eval t)
qed

end
